theory Spec2Isabelle
  imports Complex_Main "HOL-Library.Word" "HOL-Library.Log_Nat"
begin

unbundle bit_operations_syntax

section \<open>JavaScript values used by app.js\<close>

text \<open>
  A JavaScript string is a sequence of UTF-16 code units; \<open>charCodeAt\<close> reads one
  of them as a number between 0 and 65535. String literals of the source that are plain
  ASCII are written through \<open>lit\<close>.
\<close>

type_synonym code_unit = "16 word"
type_synonym jsstring = "code_unit list"

definition lit :: "string \<Rightarrow> jsstring" where
  "lit s = map (\<lambda>c. of_nat (of_char c)) s"

text \<open>
  The numbers of the program are integers far below \<open>2 ^ 53\<close>, where the
  arithmetic of doubles is exact, or \<open>NaN\<close> (the remainder by a zero length).
\<close>

datatype number = Num int | NaN

text \<open>\<open>ToInt32\<close>: reduce modulo \<open>2 ^ 32\<close> into the signed 32-bit range.\<close>

definition ToInt32 :: "int \<Rightarrow> int" where
  "ToInt32 x = (let m = x mod 2 ^ 32 in if m \<ge> 2 ^ 31 then m - 2 ^ 32 else m)"

text \<open>\<open>a << k\<close>: the left operand as an int32, shifted, the result again an int32.\<close>

definition js_shl :: "int \<Rightarrow> nat \<Rightarrow> int" where
  "js_shl a k = ToInt32 (ToInt32 a * 2 ^ (k mod 32))"

text \<open>\<open>a | 0\<close> on an integer-valued number is \<open>ToInt32 a\<close>.\<close>

definition js_or0 :: "int \<Rightarrow> int" where
  "js_or0 a = ToInt32 a"

text \<open>
  \<open>a % b\<close> on integer-valued numbers: \<open>NaN\<close> for a zero divisor, otherwise the
  remainder of the truncating division, with the sign of the dividend.
\<close>

definition js_rem :: "int \<Rightarrow> int \<Rightarrow> number" where
  "js_rem a b = (if b = 0 then NaN else Num (sgn a * (\<bar>a\<bar> mod \<bar>b\<bar>)))"

section \<open>Doubles between 0 and 1\<close>

text \<open>
  A value of \<open>Math.random()\<close> is a double \<open>d\<close> with \<open>0 \<le> d < 1\<close>: a significand
  below \<open>2 ^ 53\<close> over a power of two, \<open>significand / 2 ^ exponent\<close>, smaller than 1.
\<close>

record double01 =
  significand :: nat
  exponent :: nat

definition unit_double :: "double01 \<Rightarrow> bool" where
  "unit_double d = (significand d < 2 ^ 53 \<and> significand d < 2 ^ exponent d)"

text \<open>
  The product of such a double and an array length (an integer below \<open>2 ^ 32\<close>) is
  \<open>significand * length / 2 ^ exponent\<close>, rounded to a double: the numerator keeps 53
  significant bits, rounded to nearest, ties to even.
\<close>

definition round53 :: "nat \<Rightarrow> nat" where
  "round53 p =
     (if p < 2 ^ 53 then p
      else let k = floorlog 2 p - 53;
               q = p div 2 ^ k;
               r = p mod 2 ^ k;
               half = 2 ^ (k - 1)
           in (if half < r \<or> (r = half \<and> odd q) then q + 1 else q) * 2 ^ k)"

text \<open>\<open>Math.floor(d * n)\<close>.\<close>

definition mul_floor :: "double01 \<Rightarrow> nat \<Rightarrow> int" where
  "mul_floor d n = int (round53 (significand d * n) div 2 ^ exponent d)"

section \<open>hashString\<close>

text \<open>
  The body of the \<open>for\<close> loop of \<open>hashString\<close>:
  \<open>hash = (hash << 5) - hash + char; hash |= 0\<close>.
\<close>

definition hash_step :: "int \<Rightarrow> code_unit \<Rightarrow> int" where
  "hash_step hash char = js_or0 (js_shl hash 5 - hash + uint char)"

text \<open>The loop, over the code units that remain from position \<open>i\<close> on.\<close>

fun hash_loop :: "int \<Rightarrow> jsstring \<Rightarrow> int" where
  "hash_loop hash [] = hash"
| "hash_loop hash (char # rest) = hash_loop (hash_step hash char) rest"

definition hashString :: "jsstring \<Rightarrow> int" where
  "hashString str = \<bar>hash_loop 0 str\<bar>"

text \<open>
  The reference hash, written from the words of the specification: a 32-bit
  two's-complement accumulator that starts at 0 and takes
  \<open>(hash << 5) - hash + code\<close> for each code unit in order; then the absolute value,
  where the minimum value \<open>- 2 ^ 31\<close> is read as the unsigned \<open>2 ^ 31\<close>.
\<close>

definition ref_step :: "32 word \<Rightarrow> code_unit \<Rightarrow> 32 word" where
  "ref_step h code = push_bit 5 h - h + ucast code"

definition ref_hash :: "jsstring \<Rightarrow> int" where
  "ref_hash str =
     (let h = foldl ref_step 0 str
      in if sint h = - (2 ^ 31) then uint h else \<bar>sint h\<bar>)"

section \<open>The quote collection and the two selectors\<close>

text \<open>
  A quote has the fields \<open>text\<close>, \<open>song\<close>, \<open>artist\<close> and an optional \<open>album\<close>
  (\<open>None\<close> when the property is absent). The collection is an array; each entry is
  a quote or is missing (a hole, \<open>undefined\<close> or \<open>null\<close>), written \<open>None\<close>. An array
  without a missing entry is the sequence of quotes of the specification's data model.
\<close>

record quote =
  quote_text :: jsstring
  song :: jsstring
  artist :: jsstring
  album :: "jsstring option"

type_synonym collection = "quote option list"

text \<open>\<open>window.QUOTES_DATA || []\<close>: an absent global gives the empty array.\<close>

definition load_quotes :: "collection option \<Rightarrow> collection" where
  "load_quotes data = (case data of None \<Rightarrow> [] | Some qs \<Rightarrow> qs)"

text \<open>
  \<open>quotes[index]\<close>: the entry when the index is an integer inside the array, and
  nothing (\<open>undefined\<close>, here \<open>None\<close>) for every other number. A missing entry reads
  as \<open>None\<close> too: \<open>!quote\<close> holds of it, and reading its \<open>.text\<close> throws.
\<close>

fun quotes_at :: "collection \<Rightarrow> number \<Rightarrow> quote option" where
  "quotes_at quotes NaN = None"
| "quotes_at quotes (Num i) =
     (if 0 \<le> i \<and> i < int (length quotes) then quotes ! nat i else None)"

text \<open>
  \<open>getDailyIndex\<close>. The argument \<open>today\<close> is what \<open>todayString()\<close> returned, the
  UTC date read from the clock.
\<close>

definition getDailyIndex :: "jsstring \<Rightarrow> collection \<Rightarrow> number" where
  "getDailyIndex today quotes = js_rem (hashString today) (int (length quotes))"

text \<open>
  \<open>Math.random()\<close> is an input: \<open>rnd k\<close> is the value of the call number \<open>k\<close>
  (from 0) made by one invocation of \<open>getRandomIndex\<close>.
\<close>

type_synonym random_source = "nat \<Rightarrow> double01"

datatype error = TypeError

text \<open>\<open>Math.floor(Math.random() * quotes.length)\<close>, for the value drawn.\<close>

definition random_index :: "double01 \<Rightarrow> collection \<Rightarrow> int" where
  "random_index r quotes = mul_floor r (length quotes)"

text \<open>
  The \<open>do ... while\<close> loop of \<open>getRandomIndex\<close>, entered with the current value of
  \<open>attempts\<close>. It returns \<open>idx\<close> and the final \<open>attempts\<close>, which is also the number
  of calls of \<open>Math.random\<close> made so far. Reading \<open>.text\<close> where \<open>quotes[idx]\<close> is
  nothing throws a \<open>TypeError\<close>.
\<close>

function getRandomIndex_loop ::
  "jsstring \<Rightarrow> collection \<Rightarrow> random_source \<Rightarrow> nat \<Rightarrow> (error + int) \<times> nat" where
  "getRandomIndex_loop currentText quotes rnd attempts =
     (let idx = random_index (rnd attempts) quotes;
          attempts' = attempts + 1
      in case quotes_at quotes (Num idx) of
           None \<Rightarrow> (Inl TypeError, attempts')
         | Some q \<Rightarrow>
             if quote_text q = currentText \<and> attempts' < 20
             then getRandomIndex_loop currentText quotes rnd attempts'
             else (Inr idx, attempts'))"
  by pat_completeness auto
termination
  by (relation "measure (\<lambda>(currentText, quotes, rnd, attempts). 20 - attempts)") auto

definition getRandomIndex ::
  "jsstring \<Rightarrow> collection \<Rightarrow> random_source \<Rightarrow> (error + int) \<times> nat" where
  "getRandomIndex currentText quotes rnd =
     (if length quotes \<le> 1 then (Inr 0, 0)
      else getRandomIndex_loop currentText quotes rnd 0)"

section \<open>The page\<close>

text \<open>
  The state the script reads and writes: the text and the \<open>visible\<close> class of the two
  text regions, the mode label, the flag \<open>isDaily\<close>, which listeners are registered,
  and the callbacks that are scheduled and have not run yet (each \<open>setTimeout\<close>
  callback is a closure over its quote). The four elements looked up at the start are
  taken to exist. \<open>selector_calls\<close> is kept by the model only: it logs each call of
  \<open>getDailyIndex\<close> and \<open>getRandomIndex\<close>, in order.
\<close>

datatype selector = Daily | Random

record page =
  quoteText_textContent :: jsstring
  quoteText_visible :: bool
  quoteCredit_textContent :: jsstring
  quoteCredit_visible :: bool
  dailyLabel_textContent :: jsstring
  isDaily :: bool
  shuffleBtn_onclick :: bool
  document_onkeydown :: bool
  timeouts :: "quote list"
  animation_frames :: nat
  selector_calls :: "selector list"

text \<open>The callback given to \<open>requestAnimationFrame\<close>.\<close>

definition frame_callback :: "page \<Rightarrow> page" where
  "frame_callback st = st\<lparr>quoteText_visible := True, quoteCredit_visible := True\<rparr>"

text \<open>The callback given to \<open>setTimeout\<close>, for the quote it closes over.\<close>

definition timeout_callback :: "quote \<Rightarrow> page \<Rightarrow> page" where
  "timeout_callback q st =
     (let st1 = st\<lparr>quoteText_textContent := [0x201C] @ quote_text q @ [0x201D]\<rparr>;
          st2 = st1\<lparr>quoteCredit_textContent := song q @ lit '' '' @ [0x2014] @ lit '' '' @ artist q\<rparr>;
          st3 = (case album q of
                   None \<Rightarrow> st2
                 | Some a \<Rightarrow>
                     if a \<noteq> [] \<and> a \<noteq> lit ''Single''
                     then st2\<lparr>quoteCredit_textContent :=
                            quoteCredit_textContent st2 @ lit '' ('' @ a @ lit '')''\<rparr>
                     else st2)
      in st3\<lparr>animation_frames := animation_frames st3 + 1\<rparr>)"

definition displayQuote :: "collection \<Rightarrow> number \<Rightarrow> page \<Rightarrow> page" where
  "displayQuote quotes index st =
     (case quotes_at quotes index of
        None \<Rightarrow> st
      | Some q \<Rightarrow>
          st\<lparr>quoteText_visible := False, quoteCredit_visible := False,
             timeouts := timeouts st @ [q]\<rparr>)"

text \<open>The event loop runs the oldest scheduled callback.\<close>

definition fire_timeout :: "page \<Rightarrow> page" where
  "fire_timeout st =
     (case timeouts st of
        [] \<Rightarrow> st
      | q # rest \<Rightarrow> timeout_callback q (st\<lparr>timeouts := rest\<rparr>))"

definition fire_frame :: "page \<Rightarrow> page" where
  "fire_frame st =
     (if animation_frames st = 0 then st
      else frame_callback (st\<lparr>animation_frames := animation_frames st - 1\<rparr>))"

text \<open>\<open>s.slice(1, -1)\<close>: the string without its first and its last code unit.\<close>

definition slice_1_m1 :: "jsstring \<Rightarrow> jsstring" where
  "slice_1_m1 s = take (length s - 2) (drop 1 s)"

text \<open>
  \<open>onShuffle\<close>. An exception leaves the handler with the state as it is at the throw;
  the first component of the result is the exception, if any.
\<close>

definition onShuffle :: "collection \<Rightarrow> random_source \<Rightarrow> page \<Rightarrow> error option \<times> page" where
  "onShuffle quotes rnd st =
     (let st1 = st\<lparr>isDaily := False\<rparr>;
          st2 = st1\<lparr>dailyLabel_textContent := lit ''random''\<rparr>;
          currentText = slice_1_m1 (quoteText_textContent st2);
          st3 = st2\<lparr>selector_calls := selector_calls st2 @ [Random]\<rparr>
      in case fst (getRandomIndex currentText quotes rnd) of
           Inl e \<Rightarrow> (Some e, st3)
         | Inr idx \<Rightarrow> (None, displayQuote quotes (Num idx) st3))"

text \<open>
  The body of the script after the function declarations: \<open>isDaily = true\<close>, the
  \<open>if\<close> on the length, then the registration of the \<open>keydown\<close> listener.
\<close>

definition init :: "collection option \<Rightarrow> jsstring \<Rightarrow> page \<Rightarrow> page" where
  "init data today st0 =
     (let quotes = load_quotes data;
          st = st0\<lparr>isDaily := True\<rparr>;
          st' = (if length quotes = 0
                 then st\<lparr>quoteText_textContent := lit ''No quotes available yet.'',
                         quoteText_visible := True\<rparr>
                 else (displayQuote quotes (getDailyIndex today quotes)
                         (st\<lparr>selector_calls := selector_calls st @ [Daily]\<rparr>))
                      \<lparr>shuffleBtn_onclick := True\<rparr>)
      in st'\<lparr>document_onkeydown := True\<rparr>)"

text \<open>
  A \<open>keydown\<close> event, as far as the listener reads it: its key and whether its target
  is \<open>document.body\<close>. \<open>preventDefault\<close> acts on the event alone and is left out.
\<close>

record key_event =
  key :: jsstring
  target_is_body :: bool

definition keydown_listener ::
  "collection \<Rightarrow> random_source \<Rightarrow> key_event \<Rightarrow> page \<Rightarrow> error option \<times> page" where
  "keydown_listener quotes rnd e st =
     (if key e = lit '' '' \<and> target_is_body e then onShuffle quotes rnd st else (None, st))"

text \<open>The browser delivers an event to the listeners that are registered.\<close>

definition press_key ::
  "collection \<Rightarrow> random_source \<Rightarrow> key_event \<Rightarrow> page \<Rightarrow> error option \<times> page" where
  "press_key quotes rnd e st =
     (if document_onkeydown st then keydown_listener quotes rnd e st else (None, st))"

definition click_shuffle ::
  "collection \<Rightarrow> random_source \<Rightarrow> page \<Rightarrow> error option \<times> page" where
  "click_shuffle quotes rnd st =
     (if shuffleBtn_onclick st then onShuffle quotes rnd st else (None, st))"

section \<open>Sample data\<close>

text \<open>
  A quote with a given text and no album, the collection of the quotes with given
  texts, a collection with a missing entry in the middle, a page before the script has
  run, a page that shows a quote and has callbacks scheduled, the event of a space key
  pressed on the body, and the doubles 1/4, 1/2 and 3/4, for the concrete instances
  below.
\<close>

definition titled :: "string \<Rightarrow> quote" where
  "titled t = \<lparr>quote_text = lit t, song = lit ''Song'', artist = lit ''Artist'', album = None\<rparr>"

definition titles :: "string list \<Rightarrow> collection" where
  "titles ts = map (\<lambda>t. Some (titled t)) ts"

definition with_hole :: collection where
  "with_hole = [Some (titled ''a''), None, Some (titled ''b'')]"

definition shown_page :: page where
  "shown_page = \<lparr>quoteText_textContent = [0x201C] @ lit ''a'' @ [0x201D],
     quoteText_visible = True,
     quoteCredit_textContent = lit ''Song '' @ [0x2014] @ lit '' Artist'',
     quoteCredit_visible = True,
     dailyLabel_textContent = lit ''daily'', isDaily = True,
     shuffleBtn_onclick = True, document_onkeydown = True,
     timeouts = [titled ''b''], animation_frames = 1, selector_calls = [Daily]\<rparr>"

definition blank_page :: page where
  "blank_page = \<lparr>quoteText_textContent = [], quoteText_visible = False,
     quoteCredit_textContent = [], quoteCredit_visible = False,
     dailyLabel_textContent = lit ''daily'', isDaily = True,
     shuffleBtn_onclick = False, document_onkeydown = False,
     timeouts = [], animation_frames = 0, selector_calls = []\<rparr>"

definition space_on_body :: key_event where
  "space_on_body = \<lparr>key = lit '' '', target_is_body = True\<rparr>"

definition dbl_quarter :: double01 where
  "dbl_quarter = \<lparr>significand = 1, exponent = 2\<rparr>"

definition dbl_half :: double01 where
  "dbl_half = \<lparr>significand = 1, exponent = 1\<rparr>"

definition dbl_three_quarters :: double01 where
  "dbl_three_quarters = \<lparr>significand = 3, exponent = 2\<rparr>"

declare getRandomIndex_loop.simps [simp del]
declare quotes_at.simps [simp del]

section \<open>The sample collections\<close>

lemma length_titles [simp]: "length (titles ts) = length ts"
  by (simp add: titles_def)

lemma titles_dense: "None \<notin> set (titles ts)"
  by (auto simp: titles_def)

section \<open>The hash\<close>

text \<open>\<open>ToInt32\<close> is the signed reading of the low 32 bits.\<close>

lemma wrap_shift_generic:
  fixes x M :: int
  assumes "0 < M"
  shows "(x + M) mod (2 * M) - M =
    (if M \<le> x mod (2 * M) then x mod (2 * M) - 2 * M else x mod (2 * M))"
proof -
  define m where "m = x mod (2 * M)"
  have m: "0 \<le> m" "m < 2 * M" using assms by (simp_all add: m_def)
  have e: "(x + M) mod (2 * M) = (m + M) mod (2 * M)"
    unfolding m_def by (simp add: mod_add_left_eq)
  show ?thesis
  proof (cases "M \<le> m")
    case True
    have "(m + M) mod (2 * M) = (m - M + 1 * (2 * M)) mod (2 * M)" by (simp add: algebra_simps)
    also have "\<dots> = (m - M) mod (2 * M)" by (simp only: mod_mult_self1)
    also have "\<dots> = m - M" using True m by (simp add: mod_pos_pos_trivial)
    finally show ?thesis using True e by (simp add: m_def [symmetric])
  next
    case False
    then have "(m + M) mod (2 * M) = m + M" using m by (simp add: mod_pos_pos_trivial)
    then show ?thesis using False e by (simp add: m_def [symmetric])
  qed
qed

lemma ToInt32_sint: "ToInt32 x = sint (word_of_int x :: 32 word)"
proof -
  have "sint (word_of_int x :: 32 word) = (x + 2 ^ 31) mod (2 * 2 ^ 31) - 2 ^ 31"
    by (simp add: sint_sbintrunc' signed_take_bit_eq_take_bit_shift take_bit_eq_mod)
  also have "\<dots> = ToInt32 x"
    unfolding ToInt32_def Let_def
    using wrap_shift_generic [of "2 ^ 31" x] by simp
  finally show ?thesis by simp
qed

lemma ToInt32_range: "- (2 ^ 31) \<le> ToInt32 x \<and> ToInt32 x < 2 ^ 31"
  using sint_ge [of "word_of_int x :: 32 word"] sint_lt [of "word_of_int x :: 32 word"]
  by (simp add: ToInt32_sint)

text \<open>One step of the loop is one step of the 32-bit reference, and a multiplication by 31.\<close>

lemma hash_step_ref: "hash_step (sint h) c = sint (ref_step h c)"
  unfolding hash_step_def js_or0_def js_shl_def ToInt32_sint ref_step_def
  by (simp add: push_bit_eq_mult)

lemma hash_step_31: "hash_step (sint h) c = sint (31 * h + ucast c :: 32 word)"
  unfolding hash_step_def js_or0_def js_shl_def ToInt32_sint
  by simp

lemma hash_loop_ref: "hash_loop (sint h) str = sint (foldl ref_step h str)"
  by (induction str arbitrary: h) (simp_all add: hash_step_ref)

lemma min_word_uint: "sint (h :: 32 word) = - (2 ^ 31) \<Longrightarrow> uint h = 2 ^ 31"
  by (simp add: uint_sint [of h] take_bit_eq_mod)

text \<open>
  C2. For every string, \<open>hashString\<close> is the reference hash: the 32-bit
  two's-complement accumulation of \<open>(hash << 5) - hash + code\<close> from 0, then the
  absolute value, where the minimum value \<open>- 2 ^ 31\<close> gives \<open>2 ^ 31\<close>.
\<close>

theorem hashString_is_ref_hash: "hashString str = ref_hash str"
proof -
  have "hash_loop 0 str = sint (foldl ref_step 0 str)"
    using hash_loop_ref [of 0 str] by simp
  then show ?thesis
    unfolding hashString_def ref_hash_def Let_def
    by (simp add: min_word_uint)
qed

text \<open>The minimum is reached: this string hashes to \<open>- 2 ^ 31\<close>, and the result is \<open>2 ^ 31\<close>.\<close>

lemma hash_loop_minimum: "hash_loop 0 (lit ''polygenelubricants'') = - (2 ^ 31)"
  by (simp add: lit_def hash_step_def js_or0_def js_shl_def ToInt32_def)

lemma hashString_minimum: "hashString (lit ''polygenelubricants'') = 2 ^ 31"
  by (simp add: hashString_def hash_loop_minimum)

lemma hashString_bounds: "0 \<le> hashString str \<and> hashString str \<le> 2 ^ 31"
proof -
  have "- (2 ^ 31) \<le> sint (foldl ref_step 0 str)" "sint (foldl ref_step 0 str) < 2 ^ 31"
    using sint_ge [of "foldl ref_step 0 str"] sint_lt [of "foldl ref_step 0 str"] by simp_all
  moreover have "hash_loop 0 str = sint (foldl ref_step 0 str)"
    using hash_loop_ref [of 0 str] by simp
  ultimately show ?thesis by (simp add: hashString_def)
qed

section \<open>The daily selector\<close>

lemma js_rem_range:
  assumes "0 \<le> a" "0 < b"
  shows "\<exists>i. js_rem a b = Num i \<and> 0 \<le> i \<and> i < b"
proof -
  have e: "sgn a * (\<bar>a\<bar> mod \<bar>b\<bar>) = a mod b"
  proof (cases "a = 0")
    case True
    then show ?thesis by simp
  next
    case False
    with assms have "sgn a = 1" by simp
    with assms show ?thesis by simp
  qed
  have "js_rem a b = Num (sgn a * (\<bar>a\<bar> mod \<bar>b\<bar>))"
    using assms by (simp add: js_rem_def)
  then have "js_rem a b = Num (a mod b)" by (simp only: e)
  moreover have "0 \<le> a mod b" "a mod b < b" using assms by simp_all
  ultimately show ?thesis by blast
qed

text \<open>
  C1. For every date key and every collection of positive length, \<open>getDailyIndex\<close>
  is an integer \<open>i\<close> with \<open>0 \<le> i < length\<close>.
\<close>

theorem getDailyIndex_in_range:
  "0 < length quotes \<Longrightarrow>
   \<exists>i. getDailyIndex today quotes = Num i \<and> 0 \<le> i \<and> i < int (length quotes)"
  unfolding getDailyIndex_def
  by (rule js_rem_range) (simp_all add: hashString_def)

theorem getDailyIndex_in_range_witness:
  "0 < length (titles [''a'', ''b'', ''c'', ''d'', ''e'', ''f'', ''g'']) \<and>
   (\<exists>i. getDailyIndex (lit ''2024-01-15'')
          (titles [''a'', ''b'', ''c'', ''d'', ''e'', ''f'', ''g'']) = Num i
     \<and> 0 \<le> i \<and> i < int (length (titles [''a'', ''b'', ''c'', ''d'', ''e'', ''f'', ''g''])))"
  using getDailyIndex_in_range
    [of "titles [''a'', ''b'', ''c'', ''d'', ''e'', ''f'', ''g'']" "lit ''2024-01-15''"]
  by simp

text \<open>The scenario of the specification: the key \<open>2024-01-15\<close> and seven quotes.\<close>

lemma getDailyIndex_example:
  "getDailyIndex (lit ''2024-01-15'')
     (titles [''a'', ''b'', ''c'', ''d'', ''e'', ''f'', ''g'']) = Num 1"
  by (simp add: getDailyIndex_def js_rem_def hashString_def lit_def hash_step_def
      js_or0_def js_shl_def ToInt32_def)

text \<open>With a zero length the remainder is \<open>NaN\<close>, which is no index of any array.\<close>

lemma getDailyIndex_empty: "getDailyIndex today [] = NaN"
  by (simp add: getDailyIndex_def js_rem_def)

section \<open>The rounded product stays below the length\<close>

lemma round53_upper:
  assumes "2 ^ 53 \<le> p"
  shows "2 * round53 p \<le> 2 * p + 2 ^ (floorlog 2 p - 53)"
proof -
  define k where "k = floorlog 2 p - 53"
  define t :: nat where "t = 2 ^ k"
  define q where "q = p div t"
  define r where "r = p mod t"
  define h :: nat where "h = 2 ^ (k - 1)"
  have "54 \<le> floorlog 2 p"
    using floorlog_ge_SucI [of 2 53 p] assms by simp
  then have "1 \<le> k" by (simp add: k_def)
  then have h: "2 * h = t"
    unfolding h_def t_def by (cases k) simp_all
  have split: "p = q * t + r"
    unfolding q_def r_def by (simp only: div_mult_mod_eq)
  have "2 * ((if h < r \<or> (r = h \<and> odd q) then q + 1 else q) * t) \<le> 2 * p + t"
  proof (cases "h < r \<or> (r = h \<and> odd q)")
    case True
    then have "h \<le> r" by auto
    with h have "t \<le> 2 * r" by linarith
    then have "2 * (q * t + t) \<le> 2 * (q * t + r) + t" by simp
    moreover have "(q + 1) * t = q * t + t" by (simp add: algebra_simps)
    ultimately have "2 * ((q + 1) * t) \<le> 2 * p + t" by (simp only: split)
    with True show ?thesis by (simp only: if_True)
  next
    case False
    have "2 * (q * t) \<le> 2 * (q * t + r) + t" by simp
    then have "2 * (q * t) \<le> 2 * p + t" by (simp only: split)
    with False show ?thesis by (simp only: if_False)
  qed
  moreover have "round53 p = (if h < r \<or> (r = h \<and> odd q) then q + 1 else q) * t"
    using assms unfolding round53_def Let_def h_def r_def q_def t_def k_def by simp
  ultimately show ?thesis by (simp add: t_def k_def)
qed

lemma round53_below:
  assumes m: "m < 2 ^ 53" "m < 2 ^ e" and n: "0 < n"
  shows "round53 (m * n) < n * 2 ^ e"
proof (cases "m * n < 2 ^ 53")
  case True
  have "m * n < 2 ^ e * n" using m(2) n by simp
  with True show ?thesis by (simp add: round53_def mult.commute)
next
  case False
  define p where "p = m * n"
  define k where "k = floorlog 2 p - 53"
  from False have big: "2 ^ 53 \<le> p" by (simp add: p_def)
  then have p0: "0 < p" by (simp add: order.strict_trans2 [of 0 "2 ^ 53" p])
  have "54 \<le> floorlog 2 p"
    using floorlog_ge_SucI [of 2 53 p] big by simp
  then have k: "1 \<le> k" "floorlog 2 p - 1 = 52 + k" by (simp_all add: k_def)
  have "(2::nat) ^ (52 + k) \<le> p"
    using floorlog_bounds [of p 2] p0 k(2) by simp
  also have "p < 2 ^ 53 * n" unfolding p_def using m(1) n by simp
  finally have "(2::nat) ^ (52 + k) < 2 ^ 53 * n" .
  then have "(2::nat) ^ 52 * 2 ^ k < 2 ^ 52 * (2 * n)" by (simp add: power_add)
  then have kn: "(2::nat) ^ k < 2 * n" by simp
  have "m + 1 \<le> 2 ^ e" using m(2) by simp
  then have "(m + 1) * n \<le> 2 ^ e * n" by (rule mult_le_mono1)
  then have pn: "p + n \<le> n * 2 ^ e" by (simp add: p_def algebra_simps)
  have "2 * round53 p \<le> 2 * p + 2 ^ k"
    using round53_upper [OF big] by (simp add: k_def)
  also have "\<dots> < 2 * p + 2 * n" using kn by simp
  also have "\<dots> \<le> 2 * (n * 2 ^ e)" using pn by simp
  finally show ?thesis by (simp add: p_def)
qed

lemma mul_floor_range:
  assumes "unit_double d" "0 < n"
  shows "0 \<le> mul_floor d n \<and> mul_floor d n < int n"
proof -
  have "round53 (significand d * n) < n * 2 ^ exponent d"
    using assms by (intro round53_below) (simp_all add: unit_double_def)
  then have "round53 (significand d * n) div 2 ^ exponent d < n"
    by (simp add: less_mult_imp_div_less)
  then show ?thesis by (simp add: mul_floor_def)
qed

text \<open>
  The largest double below 1 times 3: the product is rounded up, to
  \<open>27021597764222972 / 2 ^ 53\<close>, and its floor is still 2.
\<close>

lemma floorlog_example: "floorlog 2 27021597764222973 = 55"
  by (simp add: compute_floorlog)

lemma mul_floor_largest:
  "mul_floor \<lparr>significand = 9007199254740991, exponent = 53\<rparr> 3 = 2"
  by (simp add: mul_floor_def round53_def Let_def floorlog_example)

section \<open>The random selector\<close>

lemma random_index_range:
  assumes "unit_double r" "quotes \<noteq> []"
  shows "0 \<le> random_index r quotes \<and> random_index r quotes < int (length quotes)"
  using mul_floor_range [of r "length quotes"] assms by (simp add: random_index_def)

lemma loop_draws: "snd (getRandomIndex_loop cur quotes rnd a) \<le> max 20 (Suc a)"
proof (induction cur quotes rnd a rule: getRandomIndex_loop.induct)
  case (1 cur quotes rnd a)
  show ?case
    apply (subst getRandomIndex_loop.simps)
    using 1 by (auto simp: Let_def split: option.splits)
qed

text \<open>
  C4. For every collection, every current text and every sequence of random values,
  \<open>getRandomIndex\<close> returns (the loop is a total function) and has called
  \<open>Math.random\<close> at most 20 times.
\<close>

theorem getRandomIndex_draws: "snd (getRandomIndex cur quotes rnd) \<le> 20"
  using loop_draws [of cur quotes rnd 0] by (simp add: getRandomIndex_def)

text \<open>Nothing beyond the first 20 values of the random source is read.\<close>

lemma loop_reads_20:
  "\<forall>k<20. rnd k = rnd' k \<Longrightarrow> a < 20 \<Longrightarrow>
   getRandomIndex_loop cur quotes rnd a = getRandomIndex_loop cur quotes rnd' a"
proof (induction cur quotes rnd a rule: getRandomIndex_loop.induct)
  case (1 cur quotes rnd a)
  have e: "rnd' a = rnd a" using "1.prems" by simp
  let ?i = "random_index (rnd a) quotes"
  show ?case
  proof (cases "quotes_at quotes (Num ?i)")
    case None
    have "getRandomIndex_loop cur quotes rnd a = (Inl TypeError, a + 1)"
      using None by (subst getRandomIndex_loop.simps) (simp add: Let_def)
    moreover have "getRandomIndex_loop cur quotes rnd' a = (Inl TypeError, a + 1)"
      using None by (subst getRandomIndex_loop.simps) (simp add: e Let_def)
    ultimately show ?thesis by simp
  next
    case (Some q)
    show ?thesis
    proof (cases "quote_text q = cur \<and> a + 1 < 20")
      case True
      have "getRandomIndex_loop cur quotes rnd a = getRandomIndex_loop cur quotes rnd (a + 1)"
        using Some True by (subst getRandomIndex_loop.simps) (simp add: Let_def)
      moreover have
        "getRandomIndex_loop cur quotes rnd' a = getRandomIndex_loop cur quotes rnd' (a + 1)"
        using Some True by (subst getRandomIndex_loop.simps) (simp add: e Let_def)
      moreover from True have "a + 1 < 20" by simp
      from "1.IH" [OF refl refl Some True "1.prems"(1) this]
      have "getRandomIndex_loop cur quotes rnd (a + 1) = getRandomIndex_loop cur quotes rnd' (a + 1)" .
      ultimately show ?thesis by simp
    next
      case False
      have "getRandomIndex_loop cur quotes rnd a = (Inr ?i, a + 1)"
        using Some False by (subst getRandomIndex_loop.simps) (auto simp: Let_def)
      moreover have "getRandomIndex_loop cur quotes rnd' a = (Inr ?i, a + 1)"
        using Some False by (subst getRandomIndex_loop.simps) (auto simp: e Let_def)
      ultimately show ?thesis by simp
    qed
  qed
qed

lemma getRandomIndex_reads_20:
  "\<forall>k<20. rnd k = rnd' k \<Longrightarrow> getRandomIndex cur quotes rnd = getRandomIndex cur quotes rnd'"
  using loop_reads_20 [of rnd rnd' 0 cur quotes] by (simp add: getRandomIndex_def)

lemma loop_accepts:
  "getRandomIndex_loop cur quotes rnd a = (Inr idx, n) \<Longrightarrow> a < 20 \<Longrightarrow>
   a < n \<and> n \<le> 20 \<and> idx = random_index (rnd (n - 1)) quotes \<and>
   (\<exists>q. quotes_at quotes (Num idx) = Some q \<and> (quote_text q \<noteq> cur \<or> n = 20))"
proof (induction cur quotes rnd a rule: getRandomIndex_loop.induct)
  case (1 cur quotes rnd a)
  let ?i = "random_index (rnd a) quotes"
  from "1.prems"(1) obtain q where q: "quotes_at quotes (Num ?i) = Some q"
    by (subst (asm) getRandomIndex_loop.simps) (auto simp: Let_def split: option.splits)
  show ?case
  proof (cases "quote_text q = cur \<and> a + 1 < 20")
    case True
    with q "1.prems"(1) have r: "getRandomIndex_loop cur quotes rnd (a + 1) = (Inr idx, n)"
      by (subst (asm) getRandomIndex_loop.simps) (simp add: Let_def)
    from "1.IH" [OF refl refl q True r] True show ?thesis by auto
  next
    case False
    with q "1.prems"(1) have "idx = ?i" "n = a + 1"
      by (subst (asm) getRandomIndex_loop.simps, auto simp: Let_def)+
    with q False "1.prems"(2) show ?thesis by auto
  qed
qed

text \<open>Every draw before the accepted one was rejected for matching the current text.\<close>

lemma loop_rejected:
  "getRandomIndex_loop cur quotes rnd a = (Inr idx, n) \<Longrightarrow> a \<le> k \<Longrightarrow> k + 1 < n \<Longrightarrow>
   \<exists>q. quotes_at quotes (Num (random_index (rnd k) quotes)) = Some q \<and> quote_text q = cur"
proof (induction cur quotes rnd a rule: getRandomIndex_loop.induct)
  case (1 cur quotes rnd a)
  let ?i = "random_index (rnd a) quotes"
  from "1.prems"(1) obtain q where q: "quotes_at quotes (Num ?i) = Some q"
    by (subst (asm) getRandomIndex_loop.simps) (auto simp: Let_def split: option.splits)
  show ?case
  proof (cases "quote_text q = cur \<and> a + 1 < 20")
    case True
    with q "1.prems"(1) have r: "getRandomIndex_loop cur quotes rnd (a + 1) = (Inr idx, n)"
      by (subst (asm) getRandomIndex_loop.simps) (simp add: Let_def)
    show ?thesis
    proof (cases "k = a")
      case True
      with q \<open>quote_text q = cur \<and> a + 1 < 20\<close> show ?thesis by simp
    next
      case False
      with "1.prems"(2) have "a + 1 \<le> k" by simp
      from "1.IH" [OF refl refl q True r this "1.prems"(3)] show ?thesis .
    qed
  next
    case False
    with q "1.prems"(1) have "n = a + 1"
      by (subst (asm) getRandomIndex_loop.simps) (auto simp: Let_def)
    with "1.prems"(2,3) show ?thesis by simp
  qed
qed

lemma getRandomIndex_rejected:
  "1 < length quotes \<Longrightarrow> getRandomIndex cur quotes rnd = (Inr idx, n) \<Longrightarrow> k + 1 < n \<Longrightarrow>
   \<exists>q. quotes_at quotes (Num (random_index (rnd k) quotes)) = Some q \<and> quote_text q = cur"
  using loop_rejected [of cur quotes rnd 0 idx n k] by (simp add: getRandomIndex_def)

text \<open>Every value drawn gives an index inside the array, missing entries or not.\<close>

lemma draws_in_bounds:
  assumes "quotes \<noteq> []" "\<forall>k. unit_double (rnd k)"
  shows "0 \<le> random_index (rnd k) quotes \<and> random_index (rnd k) quotes < int (length quotes)"
  using random_index_range [of "rnd k" quotes] assms by simp

lemma quotes_at_dense:
  assumes "None \<notin> set quotes" "0 \<le> i" "i < int (length quotes)"
  shows "\<exists>q. quotes_at quotes (Num i) = Some q \<and> quotes ! nat i = Some q"
proof -
  from assms(2,3) have "quotes ! nat i \<in> set quotes" by simp
  with assms(1) have "quotes ! nat i \<noteq> None" by metis
  then obtain q where "quotes ! nat i = Some q" by blast
  with assms(2,3) show ?thesis by (simp add: quotes_at.simps)
qed

lemma loop_in_bounds:
  assumes "quotes \<noteq> []" "None \<notin> set quotes" "\<forall>k. unit_double (rnd k)"
  shows "\<exists>idx n. getRandomIndex_loop cur quotes rnd a = (Inr idx, n) \<and>
           0 \<le> idx \<and> idx < int (length quotes)"
  using assms
proof (induction cur quotes rnd a rule: getRandomIndex_loop.induct)
  case (1 cur quotes rnd a)
  let ?i = "random_index (rnd a) quotes"
  have i: "0 \<le> ?i \<and> ?i < int (length quotes)"
    using random_index_range [of "rnd a" quotes] "1.prems" by simp
  with "1.prems"(2) obtain q where q: "quotes_at quotes (Num ?i) = Some q"
    using quotes_at_dense [of quotes ?i] by blast
  show ?case
  proof (cases "quote_text q = cur \<and> a + 1 < 20")
    case True
    have "getRandomIndex_loop cur quotes rnd a = getRandomIndex_loop cur quotes rnd (a + 1)"
      using q True by (subst getRandomIndex_loop.simps) (simp add: Let_def)
    with "1.IH" [OF refl refl q True "1.prems"] show ?thesis by simp
  next
    case False
    have "getRandomIndex_loop cur quotes rnd a = (Inr ?i, a + 1)"
      using q False by (subst getRandomIndex_loop.simps) (auto simp: Let_def)
    with i show ?thesis by simp
  qed
qed

text \<open>On a missing entry the loop throws, at the draw that reads it.\<close>

lemma run_hits_hole:
  "getRandomIndex (lit ''a'') with_hole (\<lambda>k. dbl_half) = (Inl TypeError, 1)"
  by (simp add: getRandomIndex_def getRandomIndex_loop.simps random_index_def mul_floor_def
      round53_def dbl_half_def quotes_at.simps with_hole_def Let_def)

text \<open>Three runs on concrete data.\<close>

lemma run_all_match:
  "getRandomIndex (lit ''a'') (titles [''a'', ''a'']) (\<lambda>k. dbl_half) = (Inr 1, 20)"
  by (simp add: getRandomIndex_def getRandomIndex_loop.simps random_index_def mul_floor_def
      round53_def dbl_half_def quotes_at.simps titles_def titled_def lit_def Let_def)

lemma run_first_differs:
  "getRandomIndex (lit ''a'') (titles [''a'', ''b'']) (\<lambda>k. dbl_half) = (Inr 1, 1)"
  by (simp add: getRandomIndex_def getRandomIndex_loop.simps random_index_def mul_floor_def
      round53_def dbl_half_def quotes_at.simps titles_def titled_def lit_def Let_def)

lemma run_retry:
  "getRandomIndex (lit ''a'') (titles [''a'', ''b''])
     (\<lambda>k. if k < 3 then dbl_quarter else dbl_three_quarters) = (Inr 1, 4)"
  by (simp add: getRandomIndex_def getRandomIndex_loop.simps random_index_def mul_floor_def
      round53_def dbl_quarter_def dbl_three_quarters_def quotes_at.simps titles_def titled_def lit_def Let_def)

text \<open>
  C3. For a collection of more than one quote: when \<open>getRandomIndex\<close> returns the
  index \<open>idx\<close> after \<open>n\<close> draws, \<open>idx\<close> is the draw number \<open>n\<close>, there is a quote at
  \<open>idx\<close>, and its text differs from the current text or \<open>n\<close> is 20. So an index
  whose quote has the current text is returned only at the 20th draw.
\<close>

theorem getRandomIndex_accepts:
  "1 < length quotes \<Longrightarrow> getRandomIndex cur quotes rnd = (Inr idx, n) \<Longrightarrow>
   1 \<le> n \<and> n \<le> 20 \<and> idx = random_index (rnd (n - 1)) quotes \<and>
   (\<exists>q. quotes_at quotes (Num idx) = Some q \<and> (quote_text q \<noteq> cur \<or> n = 20))"
proof -
  assume len: "1 < length quotes" and res: "getRandomIndex cur quotes rnd = (Inr idx, n)"
  from len res have "getRandomIndex_loop cur quotes rnd 0 = (Inr idx, n)"
    by (simp add: getRandomIndex_def)
  from loop_accepts [OF this] show ?thesis by auto
qed

theorem getRandomIndex_accepts_witness:
  "1 < length (titles [''a'', ''a'']) \<and>
   getRandomIndex (lit ''a'') (titles [''a'', ''a'']) (\<lambda>k. dbl_half) = (Inr 1, 20) \<and>
   (\<exists>q. quotes_at (titles [''a'', ''a'']) (Num 1) = Some q \<and> quote_text q = lit ''a'')"
proof -
  have l: "1 < length (titles [''a'', ''a''])" by simp
  from getRandomIndex_accepts [OF l run_all_match] l run_all_match
  show ?thesis by (auto simp: quotes_at.simps titles_def titled_def)
qed

text \<open>
  C5. For every collection of length at most 1, the empty one included, and every
  current text, \<open>getRandomIndex\<close> returns 0, without a draw.
\<close>

theorem getRandomIndex_short:
  "length quotes \<le> 1 \<Longrightarrow> getRandomIndex cur quotes rnd = (Inr 0, 0)"
  by (simp add: getRandomIndex_def)

theorem getRandomIndex_short_witness:
  "length ([] :: collection) \<le> 1 \<and> getRandomIndex (lit ''a'') [] (\<lambda>k. dbl_half) = (Inr 0, 0) \<and>
   length (titles [''a'']) \<le> 1 \<and>
   getRandomIndex (lit ''a'') (titles [''a'']) (\<lambda>k. dbl_half) = (Inr 0, 0)"
  using getRandomIndex_short [of "[]" "lit ''a''" "\<lambda>k. dbl_half"]
    getRandomIndex_short [of "titles [''a'']" "lit ''a''" "\<lambda>k. dbl_half"]
  by simp

text \<open>
  C6. For a collection of more than one entry and random values that are doubles in
  \<open>[0, 1)\<close>: every index drawn in the loop is in \<open>[0, length)\<close>, so is every index
  that \<open>getRandomIndex\<close> returns, and when no entry is missing (a collection of
  quotes) \<open>getRandomIndex\<close> does return an index, without a \<open>TypeError\<close>, at which
  a later lookup finds a quote.
\<close>

theorem getRandomIndex_in_bounds:
  "1 < length quotes \<Longrightarrow> \<forall>k. unit_double (rnd k) \<Longrightarrow>
   (\<forall>k. 0 \<le> random_index (rnd k) quotes \<and> random_index (rnd k) quotes < int (length quotes)) \<and>
   (\<forall>idx n. getRandomIndex cur quotes rnd = (Inr idx, n) \<longrightarrow>
      0 \<le> idx \<and> idx < int (length quotes)) \<and>
   (None \<notin> set quotes \<longrightarrow>
      (\<exists>idx n q. getRandomIndex cur quotes rnd = (Inr idx, n) \<and>
         0 \<le> idx \<and> idx < int (length quotes) \<and>
         quotes_at quotes (Num idx) = Some q \<and> quotes ! nat idx = Some q))"
proof -
  assume len: "1 < length quotes" and rnd: "\<forall>k. unit_double (rnd k)"
  from len have ne: "quotes \<noteq> []" by auto
  have draws: "\<forall>k. 0 \<le> random_index (rnd k) quotes \<and>
      random_index (rnd k) quotes < int (length quotes)"
    using draws_in_bounds [OF ne rnd] by blast
  have returned: "\<forall>idx n. getRandomIndex cur quotes rnd = (Inr idx, n) \<longrightarrow>
      0 \<le> idx \<and> idx < int (length quotes)"
  proof (intro allI impI)
    fix idx n
    assume "getRandomIndex cur quotes rnd = (Inr idx, n)"
    with len have "getRandomIndex_loop cur quotes rnd 0 = (Inr idx, n)"
      by (simp add: getRandomIndex_def)
    from loop_accepts [OF this] have "idx = random_index (rnd (n - 1)) quotes" by simp
    with draws show "0 \<le> idx \<and> idx < int (length quotes)" by simp
  qed
  have dense: "None \<notin> set quotes \<longrightarrow>
      (\<exists>idx n q. getRandomIndex cur quotes rnd = (Inr idx, n) \<and>
         0 \<le> idx \<and> idx < int (length quotes) \<and>
         quotes_at quotes (Num idx) = Some q \<and> quotes ! nat idx = Some q)"
  proof
    assume d: "None \<notin> set quotes"
    from loop_in_bounds [OF ne d rnd, of cur 0] obtain idx n
      where r: "getRandomIndex_loop cur quotes rnd 0 = (Inr idx, n)"
        and i: "0 \<le> idx" "idx < int (length quotes)"
      by blast
    from len r have "getRandomIndex cur quotes rnd = (Inr idx, n)"
      by (simp add: getRandomIndex_def)
    moreover from quotes_at_dense [OF d i] obtain q
      where "quotes_at quotes (Num idx) = Some q" "quotes ! nat idx = Some q" by blast
    ultimately show "\<exists>idx n q. getRandomIndex cur quotes rnd = (Inr idx, n) \<and>
         0 \<le> idx \<and> idx < int (length quotes) \<and>
         quotes_at quotes (Num idx) = Some q \<and> quotes ! nat idx = Some q"
      using i by blast
  qed
  from draws returned dense show ?thesis by blast
qed

theorem getRandomIndex_in_bounds_witness:
  "1 < length (titles [''a'', ''b'', ''c'']) \<and>
   (\<forall>k::nat. unit_double dbl_half) \<and>
   None \<notin> set (titles [''a'', ''b'', ''c'']) \<and>
   (\<exists>idx n q. getRandomIndex (lit ''b'') (titles [''a'', ''b'', ''c'']) (\<lambda>k. dbl_half) = (Inr idx, n)
      \<and> 0 \<le> idx \<and> idx < 3 \<and> quotes_at (titles [''a'', ''b'', ''c'']) (Num idx) = Some q)"
proof -
  have l: "1 < length (titles [''a'', ''b'', ''c''])" by simp
  have r: "\<forall>k::nat. unit_double ((\<lambda>k. dbl_half) k)" by (simp add: unit_double_def dbl_half_def)
  have d: "None \<notin> set (titles [''a'', ''b'', ''c''])" by (rule titles_dense)
  from getRandomIndex_in_bounds [OF l r, of "lit ''b''"] l r d
  show ?thesis by auto
qed

section \<open>Rendering\<close>

text \<open>
  C7. For every quote, the credit written by the rendering callback is
  \<open>song \<emdash> artist\<close>, followed by \<open> (album)\<close> exactly when the album is present, not
  empty and not the string \<open>Single\<close>, and by nothing otherwise.
\<close>

theorem credit_album_suffix:
  "quoteCredit_textContent (timeout_callback q st) =
     song q @ lit '' '' @ [0x2014] @ lit '' '' @ artist q @
     (case album q of
        None \<Rightarrow> []
      | Some a \<Rightarrow> if a \<noteq> [] \<and> a \<noteq> lit ''Single'' then lit '' ('' @ a @ lit '')'' else [])"
  by (simp add: timeout_callback_def Let_def split: option.splits)

text \<open>The four cases of the album rule, on concrete quotes.\<close>

lemma credit_Abbey_Road:
  "quoteCredit_textContent
     (timeout_callback ((titled ''t'')\<lparr>album := Some (lit ''Abbey Road'')\<rparr>) st) =
   lit ''Song '' @ [0x2014] @ lit '' Artist (Abbey Road)''"
  by (simp add: timeout_callback_def Let_def titled_def lit_def)

lemma credit_Single:
  "quoteCredit_textContent
     (timeout_callback ((titled ''t'')\<lparr>album := Some (lit ''Single'')\<rparr>) st) =
   lit ''Song '' @ [0x2014] @ lit '' Artist''"
  by (simp add: timeout_callback_def Let_def titled_def lit_def)

lemma credit_empty_album:
  "quoteCredit_textContent (timeout_callback ((titled ''t'')\<lparr>album := Some []\<rparr>) st) =
   lit ''Song '' @ [0x2014] @ lit '' Artist''"
  by (simp add: timeout_callback_def Let_def titled_def lit_def)

lemma credit_no_album:
  "quoteCredit_textContent (timeout_callback (titled ''t'') st) =
   lit ''Song '' @ [0x2014] @ lit '' Artist''"
  by (simp add: timeout_callback_def Let_def titled_def lit_def)

text \<open>
  The whole path: \<open>displayQuote\<close> at an index that holds a quote hides both regions and
  schedules the callback; when it fires, the text is the quote's text between the two
  quotation marks.
\<close>

lemma displayQuote_then_timeout:
  "quotes_at quotes index = Some q \<Longrightarrow> timeouts st = [] \<Longrightarrow>
   quoteText_textContent (fire_timeout (displayQuote quotes index st)) =
     [0x201C] @ quote_text q @ [0x201D] \<and>
   \<not> quoteText_visible (fire_timeout (displayQuote quotes index st)) \<and>
   quoteText_visible (fire_frame (fire_timeout (displayQuote quotes index st)))"
  by (simp add: displayQuote_def fire_timeout_def fire_frame_def frame_callback_def
      timeout_callback_def Let_def split: option.splits)

text \<open>\<open>onShuffle\<close> reads back the text of the displayed quote.\<close>

lemma slice_1_m1_quoted: "slice_1_m1 ([0x201C] @ t @ [0x201D]) = t"
  by (simp add: slice_1_m1_def)

section \<open>Indices without a quote\<close>

lemma quotes_at_None_iff:
  "quotes_at quotes index = None \<longleftrightarrow>
   index = NaN \<or>
   (\<exists>i. index = Num i \<and> (i < 0 \<or> int (length quotes) \<le> i \<or> quotes ! nat i = None))"
  by (cases index) (auto simp: quotes_at.simps)

lemma quotes_at_hole:
  "i < length quotes \<Longrightarrow> quotes ! i = None \<Longrightarrow> quotes_at quotes (Num (int i)) = None"
  by (simp add: quotes_at.simps)

text \<open>
  C9. For every index at which the collection has no quote (\<open>NaN\<close>, an index outside
  the array, or an index inside it whose entry is missing), \<open>displayQuote\<close> returns the
  page exactly as it was: no text, no class and no scheduled callback changes, and
  nothing is thrown.
\<close>

theorem displayQuote_missing:
  "quotes_at quotes index = None \<Longrightarrow> displayQuote quotes index st = st"
  by (simp add: displayQuote_def)

theorem displayQuote_missing_witness:
  "quotes_at with_hole (Num 1) = None \<and>
   displayQuote with_hole (Num 1) shown_page = shown_page \<and>
   quotes_at with_hole (Num 3) = None \<and>
   displayQuote with_hole (Num 3) shown_page = shown_page \<and>
   quotes_at with_hole NaN = None \<and>
   displayQuote with_hole NaN shown_page = shown_page \<and>
   quotes_at with_hole (Num (- 1)) = None \<and>
   displayQuote with_hole (Num (- 1)) shown_page = shown_page \<and>
   quoteText_visible shown_page \<and> quoteCredit_visible shown_page \<and>
   timeouts shown_page = [titled ''b'']"
  using displayQuote_missing [of with_hole "Num 1" shown_page]
    displayQuote_missing [of with_hole "Num 3" shown_page]
    displayQuote_missing [of with_hole NaN shown_page]
    displayQuote_missing [of with_hole "Num (- 1)" shown_page]
  by (simp add: quotes_at.simps with_hole_def shown_page_def)

text \<open>
  Where the entry is a quote, \<open>displayQuote\<close> does change the page: it hides both
  regions and schedules the callback.
\<close>

lemma displayQuote_present:
  "displayQuote with_hole (Num 0) shown_page =
     shown_page\<lparr>quoteText_visible := False, quoteCredit_visible := False,
       timeouts := [titled ''b'', titled ''a'']\<rparr> \<and>
   displayQuote with_hole (Num 0) shown_page \<noteq> shown_page"
  by (simp add: displayQuote_def quotes_at.simps with_hole_def shown_page_def)

section \<open>The empty collection\<close>

text \<open>
  With no quotes the script shows the fallback message, visible at once: it calls no
  selector, schedules nothing and does not register the click listener. It registers
  the \<open>keydown\<close> listener all the same.
\<close>

lemma init_empty:
  "load_quotes data = [] \<Longrightarrow>
   init data today st0 =
     st0\<lparr>quoteText_textContent := lit ''No quotes available yet.'', quoteText_visible := True,
         isDaily := True, document_onkeydown := True\<rparr>"
  by (simp add: init_def Let_def)

lemma onShuffle_empty:
  "onShuffle [] rnd st =
     (None, st\<lparr>dailyLabel_textContent := lit ''random'', isDaily := False,
              selector_calls := selector_calls st @ [Random]\<rparr>)"
  by (simp add: onShuffle_def Let_def getRandomIndex_def displayQuote_def quotes_at.simps)

lemma click_unreachable_when_empty:
  "load_quotes data = [] \<Longrightarrow> \<not> shuffleBtn_onclick st0 \<Longrightarrow>
   click_shuffle (load_quotes data) rnd (init data today st0) = (None, init data today st0)"
  by (simp add: init_empty click_shuffle_def)

text \<open>
  C8. The claim: with an empty collection no selector is ever invoked. The code, on
  the empty array, a fresh page and then a space key pressed on the body: the log of
  selector calls holds a call of \<open>getRandomIndex\<close>, and the mode flag is cleared.
\<close>

theorem empty_collection_selector_invoked:
  "selector_calls
     (snd (press_key (load_quotes (Some [])) rnd space_on_body (init (Some []) today blank_page)))
   = [Random] \<and>
   isDaily
     (snd (press_key (load_quotes (Some [])) rnd space_on_body (init (Some []) today blank_page)))
   = False"
  by (simp add: load_quotes_def init_empty onShuffle_empty press_key_def keydown_listener_def
      space_on_body_def blank_page_def)

text \<open>
  C10. With an empty collection (absent or empty data) the \<open>keydown\<close> listener is
  registered; a space key pressed on the body calls \<open>getRandomIndex\<close>, which returns 0;
  \<open>displayQuote\<close> at 0 changes nothing; the handler throws nothing and leaves the
  page as it was, the fallback message included, except that \<open>isDaily\<close> is false, the
  mode label is \<open>random\<close> and the call of the selector is logged.
\<close>

theorem empty_collection_space_key:
  "load_quotes data = [] \<Longrightarrow>
   document_onkeydown (init data today st0) \<and>
   getRandomIndex cur (load_quotes data) rnd = (Inr 0, 0) \<and>
   displayQuote (load_quotes data) (Num 0) st = st \<and>
   press_key (load_quotes data) rnd space_on_body (init data today st0) =
     (None, (init data today st0)\<lparr>dailyLabel_textContent := lit ''random'', isDaily := False,
        selector_calls := selector_calls st0 @ [Random]\<rparr>) \<and>
   quoteText_textContent
     (snd (press_key (load_quotes data) rnd space_on_body (init data today st0))) =
     lit ''No quotes available yet.''"
  by (simp add: init_empty onShuffle_empty press_key_def keydown_listener_def space_on_body_def
      getRandomIndex_def displayQuote_def quotes_at.simps)

theorem empty_collection_space_key_witness:
  "load_quotes (Some []) = [] \<and>
   press_key (load_quotes (Some [])) (\<lambda>k. dbl_half) space_on_body
     (init (Some []) (lit ''2024-01-15'') blank_page) =
   (None, blank_page\<lparr>quoteText_textContent := lit ''No quotes available yet.'',
      quoteText_visible := True, dailyLabel_textContent := lit ''random'', isDaily := False,
      document_onkeydown := True, selector_calls := [Random]\<rparr>)"
  using empty_collection_space_key
    [of "Some []" "lit ''2024-01-15''" blank_page "[]" "\<lambda>k. dbl_half" blank_page]
  by (simp add: load_quotes_def init_empty blank_page_def)

text \<open>With quotes, the script calls the daily selector and registers both listeners.\<close>

lemma init_nonempty:
  "load_quotes data \<noteq> [] \<Longrightarrow>
   selector_calls (init data today st0) = selector_calls st0 @ [Daily] \<and>
   shuffleBtn_onclick (init data today st0) \<and> document_onkeydown (init data today st0)"
  by (simp add: init_def Let_def displayQuote_def split: option.splits)

end
